theory Spec2Isabelle
  imports Main "HOL-Library.Word"
begin

section \<open>Strings, bytes and the path functions used by the monitor\<close>

text \<open>
  A Python \<open>str\<close> is a sequence of Unicode code points and \<open>len\<close>, indexing and
  \<open>rfind\<close> count code points, so a string is modelled as a list of code points
  (natural numbers up to \<open>0x10FFFF\<close>). \<open>bytes\<close> is a list of 8-bit words.
\<close>

type_synonym str = "nat list"

type_synonym bytes = "8 word list"

definition lit :: "string \<Rightarrow> str" where
  \<comment> \<open>A source literal: the code points of its (ASCII) characters.\<close>
  "lit s = map of_char s"

definition SEP :: nat where
  \<comment> \<open>\<open>'/'\<close>, \<open>posixpath.sep\<close>\<close>
  "SEP = 47"

definition EXTSEP :: nat where
  \<comment> \<open>\<open>'.'\<close>, \<open>posixpath.extsep\<close>\<close>
  "EXTSEP = 46"

fun rfind :: "str \<Rightarrow> nat \<Rightarrow> int" where
  \<comment> \<open>\<open>p.rfind(c)\<close> for a one-character \<open>c\<close>: the highest index of \<open>c\<close>, or \<open>-1\<close>.\<close>
  "rfind [] c = - 1"
| "rfind (x # xs) c =
     (let r = rfind xs c
      in if 0 \<le> r then r + 1 else if x = c then 0 else - 1)"

definition basename :: "str \<Rightarrow> str" where
  \<comment> \<open>\<open>posixpath.basename\<close>: \<open>i = p.rfind('/') + 1; return p[i:]\<close>\<close>
  "basename p = drop (nat (rfind p SEP + 1)) p"

function skip_leading_dots :: "str \<Rightarrow> int \<Rightarrow> int \<Rightarrow> bool" where
  \<comment> \<open>The \<open>while filenameIndex < dotIndex\<close> loop of \<open>genericpath._splitext\<close>: \<open>True\<close> when
      it returns from inside the loop (a character other than \<open>'.'\<close> precedes the last dot),
      \<open>False\<close> when the loop runs out. Both indices are non-negative where it is called.\<close>
  "skip_leading_dots p filenameIndex dotIndex =
     (if filenameIndex < dotIndex then
        (if take 1 (drop (nat filenameIndex) p) \<noteq> [EXTSEP] then True
         else skip_leading_dots p (filenameIndex + 1) dotIndex)
      else False)"
  by pat_completeness auto
termination
  by (relation "measure (\<lambda>(p, filenameIndex, dotIndex). nat (dotIndex - filenameIndex))") auto

definition splitext :: "str \<Rightarrow> str \<times> str" where
  \<comment> \<open>\<open>posixpath.splitext\<close>, that is \<open>genericpath._splitext(p, '/', None, '.')\<close>\<close>
  "splitext p =
     (let sepIndex = rfind p SEP;
          dotIndex = rfind p EXTSEP
      in if dotIndex > sepIndex \<and> skip_leading_dots p (sepIndex + 1) dotIndex
         then (take (nat dotIndex) p, drop (nat dotIndex) p)
         else (p, []))"

definition join :: "str \<Rightarrow> str \<Rightarrow> str" where
  \<comment> \<open>\<open>posixpath.join(a, b)\<close> with one further component\<close>
  "join a b =
     (if take 1 b = [SEP] then b
      else if a = [] \<or> (a \<noteq> [] \<and> last a = SEP) then a @ b
      else a @ [SEP] @ b)"

subsection \<open>Case mapping\<close>

text \<open>
  \<open>str.lower\<close> and \<open>str.upper\<close> map every code point through the Unicode full case
  mapping of the interpreter, which may yield several code points, and \<open>lower\<close> treats
  the capital sigma \<open>U+03A3\<close> by its context. On ASCII the mapping is fixed: the letters
  \<open>A-Z\<close> and \<open>a-z\<close> are exchanged and nothing else changes. The tables for the code
  points from \<open>0x80\<close> on are data of the interpreter and not of this program, so they are
  a parameter of the model.
\<close>

record unicode_db =
  to_lower_full :: "nat \<Rightarrow> nat list"
  to_upper_full :: "nat \<Rightarrow> nat list"
  final_sigma :: "nat list \<Rightarrow> nat \<Rightarrow> bool"

definition lower_at :: "unicode_db \<Rightarrow> str \<Rightarrow> nat \<Rightarrow> nat \<Rightarrow> nat list" where
  "lower_at db s i c =
     (if c < 128 then (if 65 \<le> c \<and> c \<le> 90 then [c + 32] else [c])
      else if c = 0x3A3 then (if final_sigma db s i then [0x3C2] else [0x3C3])
      else to_lower_full db c)"

definition upper_cp :: "unicode_db \<Rightarrow> nat \<Rightarrow> nat list" where
  "upper_cp db c =
     (if c < 128 then (if 97 \<le> c \<and> c \<le> 122 then [c - 32] else [c])
      else to_upper_full db c)"

definition lower :: "unicode_db \<Rightarrow> str \<Rightarrow> str" where
  "lower db s = concat (map (\<lambda>(i, c). lower_at db s i c) (enumerate 0 s))"

definition upper :: "unicode_db \<Rightarrow> str \<Rightarrow> str" where
  "upper db s = concat (map (upper_cp db) s)"

section \<open>Configuration\<close>

definition TRANSCRIPT_DIRECTORY :: str where
  "TRANSCRIPT_DIRECTORY = lit ''/tmp/transcripts''"

definition ALLOWED_EXTENSIONS :: "str list" where
  "ALLOWED_EXTENSIONS = [lit ''.mp3'', lit ''.wav'', lit ''.flac'', lit ''.m4a'', lit ''.webm'']"

section \<open>The file filter\<close>

definition file_extension :: "unicode_db \<Rightarrow> str \<Rightarrow> str" where
  \<comment> \<open>\<open>os.path.splitext(os.path.basename(filepath))[1].lower()\<close>\<close>
  "file_extension db filepath = lower db (snd (splitext (basename filepath)))"

definition file_filter :: "unicode_db \<Rightarrow> str \<Rightarrow> bool" where
  \<comment> \<open>the test \<open>file_extension in ALLOWED_EXTENSIONS\<close> of \<open>on_created\<close>\<close>
  "file_filter db filepath = (file_extension db filepath \<in> set ALLOWED_EXTENSIONS)"

section \<open>Exceptions, the service's response and the observable world\<close>

text \<open>
  The exceptions the pipeline can meet. Every class below derives from \<open>Exception\<close>;
  \<open>KeyboardInterrupt\<close> and \<open>SystemExit\<close> are delivered to the main thread only and
  never to the observer thread that runs the handler.
\<close>

datatype exn =
    FileNotFoundError str
  | OSError str
  | IndexError
  | TypeError
  | UnicodeEncodeError
  | ServiceError str

definition is_Exception :: "exn \<Rightarrow> bool" where
  \<comment> \<open>\<open>isinstance(e, Exception)\<close>\<close>
  "is_Exception e = True"

text \<open>
  The value read by \<open>response.results.channels[0].alternatives[0].transcript\<close>: two
  lists that may be empty and an attribute that holds a string or \<open>None\<close>.
\<close>

datatype pyobj = Str str | NoneVal

datatype alternative = Alternative (transcript: pyobj)

datatype channel = Channel (alternatives: "alternative list")

datatype response = Response (channels: "channel list")

text \<open>One constructor for each \<open>print\<close> of the program, with the values it interpolates.\<close>

datatype line =
    Processing str
  | Saved str
  | Preview str
  | Api_failed str exn
  | Unexpected_error str exn
  | New_file_detected str
  | Ignored_line str

datatype action =
    Print line
  | Sleep nat
  | Read_file str
  | Transcribe bytes
  | Open_write str

record world =
  files :: "str \<rightharpoonup> bytes"
  trace :: "action list"

text \<open>
  What the surroundings decide during one event: the case tables of the interpreter, which
  reads and writes fail, and what the transcription service answers to a request.
  \<open>write_fault\<close> gives the exception and the number of bytes that reached the file.
\<close>

record env =
  unicode :: unicode_db
  read_fault :: "str \<Rightarrow> exn option"
  service :: "bytes \<Rightarrow> exn + response"
  open_fault :: "str \<Rightarrow> exn option"
  write_fault :: "str \<Rightarrow> (exn \<times> nat) option"

record event =
  is_directory :: bool
  src_path :: str

type_synonym 'a io = "world \<Rightarrow> (exn + 'a) \<times> world"

definition pure :: "'a \<Rightarrow> 'a io" where
  "pure x w = (Inr x, w)"

definition lift :: "exn + 'a \<Rightarrow> 'a io" where
  \<comment> \<open>an expression that raises or yields a value and touches nothing\<close>
  "lift r w = (r, w)"

definition bind :: "'a io \<Rightarrow> ('a \<Rightarrow> 'b io) \<Rightarrow> 'b io" where
  \<comment> \<open>sequencing of statements: an exception skips what follows\<close>
  "bind m f w = (case m w of (Inl e, w') \<Rightarrow> (Inl e, w') | (Inr x, w') \<Rightarrow> f x w')"

fun handle :: "((exn \<Rightarrow> bool) \<times> (exn \<Rightarrow> 'a io)) list \<Rightarrow> exn \<Rightarrow> 'a io" where
  \<comment> \<open>the \<open>except\<close> clauses in order: the first that matches runs, none re-raises\<close>
  "handle [] e w = (Inl e, w)"
| "handle ((c, h) # hs) e w = (if c e then h e w else handle hs e w)"

definition try_except :: "'a io \<Rightarrow> ((exn \<Rightarrow> bool) \<times> (exn \<Rightarrow> 'a io)) list \<Rightarrow> 'a io" where
  "try_except m hs w = (case m w of (Inl e, w') \<Rightarrow> handle hs e w' | (Inr x, w') \<Rightarrow> (Inr x, w'))"

definition emit :: "action \<Rightarrow> world \<Rightarrow> world" where
  "emit a w = w\<lparr>trace := trace w @ [a]\<rparr>"

definition print :: "line \<Rightarrow> unit io" where
  "print l w = (Inr (), emit (Print l) w)"

definition sleep :: "nat \<Rightarrow> unit io" where
  "sleep n w = (Inr (), emit (Sleep n) w)"

definition read_binary :: "env \<Rightarrow> str \<Rightarrow> bytes io" where
  \<comment> \<open>\<open>with open(filepath, "rb") as file: buffer_data = file.read()\<close>\<close>
  "read_binary en path w =
     (let w1 = emit (Read_file path) w
      in case read_fault en path of
           Some e \<Rightarrow> (Inl e, w1)
         | None \<Rightarrow>
             (case files w path of
                None \<Rightarrow> (Inl (FileNotFoundError path), w1)
              | Some data \<Rightarrow> (Inr data, w1)))"

definition service_call :: "env \<Rightarrow> bytes \<Rightarrow> response io" where
  \<comment> \<open>\<open>deepgram.listen.v1.media.transcribe_file(request=buffer_data, ...)\<close>\<close>
  "service_call en buffer_data w = (service en buffer_data, emit (Transcribe buffer_data) w)"

definition index0 :: "'a list \<Rightarrow> exn + 'a" where
  \<comment> \<open>\<open>xs[0]\<close>\<close>
  "index0 xs = (case xs of [] \<Rightarrow> Inl IndexError | x # _ \<Rightarrow> Inr x)"

definition extract_transcript :: "response \<Rightarrow> exn + pyobj" where
  \<comment> \<open>\<open>response.results.channels[0].alternatives[0].transcript\<close>\<close>
  "extract_transcript r =
     (case index0 (channels r) of
        Inl e \<Rightarrow> Inl e
      | Inr ch \<Rightarrow>
          (case index0 (alternatives ch) of
             Inl e \<Rightarrow> Inl e
           | Inr alt \<Rightarrow> Inr (transcript alt)))"

definition utf8_cp :: "nat \<Rightarrow> exn + bytes" where
  \<comment> \<open>the UTF-8 form of one code point; a surrogate has none\<close>
  "utf8_cp c =
     (if c < 0x80 then Inr [of_nat c]
      else if c < 0x800 then Inr [of_nat (0xC0 + c div 64), of_nat (0x80 + c mod 64)]
      else if 0xD800 \<le> c \<and> c \<le> 0xDFFF then Inl UnicodeEncodeError
      else if c < 0x10000 then
        Inr [of_nat (0xE0 + c div 4096), of_nat (0x80 + c div 64 mod 64), of_nat (0x80 + c mod 64)]
      else
        Inr [of_nat (0xF0 + c div 262144), of_nat (0x80 + c div 4096 mod 64),
             of_nat (0x80 + c div 64 mod 64), of_nat (0x80 + c mod 64)])"

fun utf8_encode :: "str \<Rightarrow> exn + bytes" where
  "utf8_encode [] = Inr []"
| "utf8_encode (c # cs) =
     (case utf8_cp c of
        Inl e \<Rightarrow> Inl e
      | Inr b \<Rightarrow> (case utf8_encode cs of Inl e \<Rightarrow> Inl e | Inr bs \<Rightarrow> Inr (b @ bs)))"

definition write_text :: "env \<Rightarrow> str \<Rightarrow> pyobj \<Rightarrow> unit io" where
  \<comment> \<open>\<open>with open(output_path, "w", encoding="utf-8") as outfile: outfile.write(transcript)\<close>:
      opening creates or truncates the file; \<open>write\<close> refuses what is not a \<open>str\<close> and what
      has no UTF-8 form, and the file is closed (and stays) whatever happens after the open.\<close>
  "write_text en path obj w =
     (let w1 = emit (Open_write path) w
      in case open_fault en path of
           Some e \<Rightarrow> (Inl e, w1)
         | None \<Rightarrow>
             (let w2 = w1\<lparr>files := (files w1)(path \<mapsto> [])\<rparr>
              in case obj of
                   NoneVal \<Rightarrow> (Inl TypeError, w2)
                 | Str s \<Rightarrow>
                     (case utf8_encode s of
                        Inl e \<Rightarrow> (Inl e, w2)
                      | Inr bs \<Rightarrow>
                          (case write_fault en path of
                             Some (e, n) \<Rightarrow> (Inl e, w2\<lparr>files := (files w2)(path \<mapsto> take n bs)\<rparr>)
                           | None \<Rightarrow> (Inr (), w2\<lparr>files := (files w2)(path \<mapsto> bs)\<rparr>)))))"

definition slice80 :: "pyobj \<Rightarrow> exn + str" where
  \<comment> \<open>\<open>transcript[:80]\<close>\<close>
  "slice80 obj = (case obj of Str s \<Rightarrow> Inr (take 80 s) | NoneVal \<Rightarrow> Inl TypeError)"

section \<open>The transcription pipeline\<close>

definition transcript_filename :: "str \<Rightarrow> str" where
  \<comment> \<open>\<open>f"{os.path.splitext(filename)[0]}_transcript.txt"\<close>\<close>
  "transcript_filename filename = fst (splitext filename) @ lit ''_transcript.txt''"

definition output_path :: "str \<Rightarrow> str" where
  \<comment> \<open>\<open>os.path.join(TRANSCRIPT_DIRECTORY, transcript_filename)\<close>\<close>
  "output_path filename = join TRANSCRIPT_DIRECTORY (transcript_filename filename)"

definition transcribe_try :: "env \<Rightarrow> str \<Rightarrow> str \<Rightarrow> unit io" where
  \<comment> \<open>the body of the \<open>try\<close> statement of \<open>transcribe_file\<close>\<close>
  "transcribe_try en filepath filename =
     bind (read_binary en filepath) (\<lambda>buffer_data.
     bind (service_call en buffer_data) (\<lambda>response.
     bind (lift (extract_transcript response)) (\<lambda>transcript.
     bind (write_text en (output_path filename) transcript) (\<lambda>_.
     bind (print (Saved (output_path filename))) (\<lambda>_.
     bind (lift (slice80 transcript)) (\<lambda>snippet.
     print (Preview snippet)))))))"

definition transcribe_file :: "env \<Rightarrow> str \<Rightarrow> unit io" where
  "transcribe_file en filepath =
     (let filename = basename filepath
      in bind (print (Processing filename)) (\<lambda>_.
         try_except (transcribe_try en filepath filename)
           [(is_Exception, \<lambda>e. print (Api_failed filename e)),
            (is_Exception, \<lambda>e. print (Unexpected_error filename e))]))"

section \<open>The event handler and the delivery of events\<close>

definition on_created :: "env \<Rightarrow> event \<Rightarrow> unit io" where
  "on_created en ev =
     (if is_directory ev then pure ()
      else
        (let filepath = src_path ev;
             filename = basename filepath
         in if file_filter (unicode en) filepath then
              bind (print (New_file_detected filename)) (\<lambda>_.
              bind (sleep 1) (\<lambda>_.
              transcribe_file en filepath))
            else print (Ignored_line filename)))"

fun dispatch_events :: "(env \<times> event) list \<Rightarrow> unit io" where
  \<comment> \<open>Modelled from the spec: the Monitor Loop's consumption of the Event Source, which is
      the observer of the watchdog library and not in the source of this program. It hands
      the creation events to the handler one at a time, in the order delivered, and runs the
      handler to its end before it takes the next event; an exception that leaves the handler
      ends the loop. Each event comes with what the surroundings do while it is handled.\<close>
  "dispatch_events [] w = (Inr (), w)"
| "dispatch_events ((en, ev) # rest) w =
     (case on_created en ev w of
        (Inl e, w') \<Rightarrow> (Inl e, w')
      | (Inr _, w') \<Rightarrow> dispatch_events rest w')"

section \<open>Outcomes\<close>

datatype status = Success | Error | Ignored

record outcome =
  status :: status
  subject :: str
  detail :: "exn option"

fun outcome_of :: "action \<Rightarrow> outcome list" where
  \<comment> \<open>the outcome a console line reports: \<open>[Success]\<close>, \<open>[Error]\<close> and \<open>[Ignored]\<close> lines\<close>
  "outcome_of (Print (Saved p)) = [\<lparr>status = Success, subject = p, detail = None\<rparr>]"
| "outcome_of (Print (Api_failed f e)) = [\<lparr>status = Error, subject = f, detail = Some e\<rparr>]"
| "outcome_of (Print (Unexpected_error f e)) = [\<lparr>status = Error, subject = f, detail = Some e\<rparr>]"
| "outcome_of (Print (Ignored_line f)) = [\<lparr>status = Ignored, subject = f, detail = None\<rparr>]"
| "outcome_of _ = []"

definition outcomes :: "action list \<Rightarrow> outcome list" where
  "outcomes tr = concat (map outcome_of tr)"

definition service_calls :: "action list \<Rightarrow> bytes list" where
  \<comment> \<open>the requests sent to the transcription service, in order\<close>
  "service_calls tr = concat (map (\<lambda>a. case a of Transcribe b \<Rightarrow> [b] | _ \<Rightarrow> []) tr)"

definition file_accesses :: "action list \<Rightarrow> str list" where
  \<comment> \<open>the paths opened for reading or for writing, in order\<close>
  "file_accesses tr =
     concat (map (\<lambda>a. case a of Read_file p \<Rightarrow> [p] | Open_write p \<Rightarrow> [p] | _ \<Rightarrow> []) tr)"

definition emitted :: "env \<Rightarrow> event \<Rightarrow> world \<Rightarrow> action list" where
  \<comment> \<open>what one run of the handler appends to the trace\<close>
  "emitted en ev w = drop (length (trace w)) (trace (snd (on_created en ev w)))"

section \<open>Auxiliary definitions\<close>

text \<open>The ASCII part of the case mapping, as a function on one code point.\<close>

definition ascii_upper :: "nat \<Rightarrow> nat" where
  "ascii_upper c = (if 97 \<le> c \<and> c \<le> 122 then c - 32 else c)"

definition ascii_lower :: "nat \<Rightarrow> nat" where
  "ascii_lower c = (if 65 \<le> c \<and> c \<le> 90 then c + 32 else c)"

text \<open>
  Concrete surroundings for the examples. \<open>ligature_db\<close> holds the one entry of the Unicode
  case tables the examples read beyond ASCII: \<open>U+FB02\<close> (LATIN SMALL LIGATURE FL) is a
  lower-case letter whose upper case is the two letters \<open>FL\<close>; the examples contain no
  other code point from \<open>0x80\<close> on. \<open>calm_env\<close> has no faults and a service that answers
  \<open>hello world\<close>; \<open>offline_env\<close> differs in that the service raises.
\<close>

definition ligature_db :: unicode_db where
  "ligature_db =
     \<lparr>to_lower_full = (\<lambda>c. [c]),
      to_upper_full = (\<lambda>c. if c = 0xFB02 then [0x46, 0x4C] else [c]),
      final_sigma = (\<lambda>s i. False)\<rparr>"

definition hello_response :: response where
  "hello_response = Response [Channel [Alternative (Str (lit ''hello world''))]]"

definition calm_env :: env where
  "calm_env =
     \<lparr>unicode = ligature_db, read_fault = (\<lambda>p. None), service = (\<lambda>b. Inr hello_response),
      open_fault = (\<lambda>p. None), write_fault = (\<lambda>p. None)\<rparr>"

definition offline_env :: env where
  "offline_env = calm_env\<lparr>service := (\<lambda>b. Inl (ServiceError (lit ''network unreachable'')))\<rparr>"

definition watch_world :: world where
  "watch_world =
     \<lparr>files = [lit ''/tmp/audio_to_process/loud.mp3'' \<mapsto> [1, 2, 3],
               lit ''/tmp/audio_to_process/quiet.wav'' \<mapsto> [4, 5]],
      trace = []\<rparr>"

definition created :: "str \<Rightarrow> event" where
  "created p = \<lparr>is_directory = False, src_path = p\<rparr>"

definition folder_created :: "str \<Rightarrow> event" where
  "folder_created p = \<lparr>is_directory = True, src_path = p\<rparr>"

section \<open>Properties\<close>

lemma rfind_ge: "- 1 \<le> rfind xs c"
  by (induction xs) (auto simp: Let_def)

lemma rfind_neg_iff: "rfind xs c < 0 \<longleftrightarrow> c \<notin> set xs"
  by (induction xs) (auto simp: Let_def)

lemma rfind_absent: "c \<notin> set xs \<Longrightarrow> rfind xs c = - 1"
  using rfind_ge [of xs c] rfind_neg_iff [of xs c] by linarith

lemma rfind_less_length: "rfind xs c < int (length xs)"
  by (induction xs) (auto simp: Let_def)

lemma rfind_append_last: "c \<notin> set ys \<Longrightarrow> rfind (xs @ c # ys) c = int (length xs)"
  by (induction xs) (auto simp: Let_def rfind_absent)

lemma rfind_map:
  assumes "\<And>x. g x = c \<longleftrightarrow> x = c"
  shows "rfind (map g xs) c = rfind xs c"
  using assms by (induction xs) (auto simp: Let_def)

lemma basename_strip: "SEP \<notin> set n \<Longrightarrow> basename (d @ SEP # n) = n"
proof -
  assume a: "SEP \<notin> set n"
  have "nat (int (length d) + 1) = Suc (length d)" by simp
  with a show ?thesis by (simp add: basename_def rfind_append_last)
qed

lemma basename_plain: "SEP \<notin> set n \<Longrightarrow> basename n = n"
  by (simp add: basename_def rfind_absent)

lemma basename_map:
  assumes "\<And>x. g x = SEP \<longleftrightarrow> x = SEP"
  shows "basename (map g p) = map g (basename p)"
  by (simp add: basename_def rfind_map [OF assms] drop_map)

lemma singleton_map_iff:
  assumes "\<And>x. g x = c \<longleftrightarrow> x = c"
  shows "map g (take 1 xs) = [c] \<longleftrightarrow> take 1 xs = [c]"
  using assms by (cases xs) auto

lemma skip_leading_dots_map:
  assumes "\<And>x. g x = EXTSEP \<longleftrightarrow> x = EXTSEP"
  shows "skip_leading_dots (map g p) i d = skip_leading_dots p i d"
proof (induction p i d rule: skip_leading_dots.induct)
  case (1 p i d)
  have eq: "take 1 (drop (nat i) (map g p)) = [EXTSEP] \<longleftrightarrow> take 1 (drop (nat i) p) = [EXTSEP]"
    using singleton_map_iff [OF assms, of "drop (nat i) p"] by (simp add: drop_map take_map)
  show ?case
  proof (cases "i < d")
    case True
    show ?thesis
    proof (cases "take 1 (drop (nat i) p) = [EXTSEP]")
      case True
      with \<open>i < d\<close> eq 1 show ?thesis
        by (subst (1 2) skip_leading_dots.simps) simp
    next
      case False
      with \<open>i < d\<close> eq show ?thesis
        by (subst (1 2) skip_leading_dots.simps) simp
    qed
  next
    case False
    then show ?thesis by (subst (1 2) skip_leading_dots.simps) simp
  qed
qed

lemma splitext_map:
  assumes "\<And>x. g x = EXTSEP \<longleftrightarrow> x = EXTSEP" and "\<And>x. g x = SEP \<longleftrightarrow> x = SEP"
  shows "splitext (map g p) = (map g (fst (splitext p)), map g (snd (splitext p)))"
  by (simp add: splitext_def Let_def rfind_map [OF assms(1)] rfind_map [OF assms(2)]
      skip_leading_dots_map [OF assms(1)] take_map drop_map del: skip_leading_dots.simps)

lemma ascii_upper_dot: "ascii_upper x = EXTSEP \<longleftrightarrow> x = EXTSEP"
  by (auto simp: ascii_upper_def EXTSEP_def)

lemma ascii_upper_sep: "ascii_upper x = SEP \<longleftrightarrow> x = SEP"
  by (auto simp: ascii_upper_def SEP_def)

lemma upper_ascii: "\<forall>c\<in>set s. c < 128 \<Longrightarrow> upper db s = map ascii_upper s"
  by (induction s) (auto simp: upper_def upper_cp_def ascii_upper_def)

lemma lower_at_ascii: "c < 128 \<Longrightarrow> lower_at db s i c = [ascii_lower c]"
  by (simp add: lower_at_def ascii_lower_def)

lemma lower_ascii_aux:
  "\<forall>c\<in>set t. c < 128 \<Longrightarrow>
     concat (map (\<lambda>(i, c). lower_at db s i c) (enumerate n t)) = map ascii_lower t"
  by (induction t arbitrary: n) (auto simp: lower_at_ascii)

lemma lower_ascii: "\<forall>c\<in>set s. c < 128 \<Longrightarrow> lower db s = map ascii_lower s"
  by (simp add: lower_def lower_ascii_aux)

lemma ascii_lower_upper: "ascii_lower (ascii_upper c) = ascii_lower c"
  by (auto simp: ascii_lower_def ascii_upper_def)

lemma set_basename: "set (basename p) \<subseteq> set p"
  by (simp add: basename_def set_drop_subset)

lemma set_splitext_snd: "set (snd (splitext p)) \<subseteq> set p"
  by (auto simp: splitext_def Let_def dest: in_set_dropD simp del: skip_leading_dots.simps)


lemma file_extension_upper:
  assumes "\<forall>c\<in>set f. c < 128"
  shows "file_extension db (upper db f) = file_extension db f"
proof -
  let ?ext = "snd (splitext (basename f))"
  have a: "\<forall>c\<in>set ?ext. c < 128"
    using assms set_basename [of f] set_splitext_snd [of "basename f"] by blast
  have b: "\<forall>c\<in>set (map ascii_upper ?ext). c < 128"
    using a by (auto simp: ascii_upper_def)
  have "file_extension db (upper db f) = lower db (map ascii_upper ?ext)"
    by (simp add: file_extension_def upper_ascii [OF assms]
        basename_map [of ascii_upper, OF ascii_upper_sep]
        splitext_map [of ascii_upper, OF ascii_upper_dot ascii_upper_sep])
  also have "\<dots> = map ascii_lower (map ascii_upper ?ext)"
    by (rule lower_ascii [OF b])
  also have "\<dots> = map ascii_lower ?ext"
    by (simp add: ascii_lower_upper)
  also have "\<dots> = file_extension db f"
    by (simp add: file_extension_def lower_ascii [OF a])
  finally show ?thesis .
qed

lemma splitext_no_dot: "EXTSEP \<notin> set p \<Longrightarrow> splitext p = (p, [])"
  using rfind_ge [of p SEP]
  by (simp add: splitext_def Let_def rfind_absent del: skip_leading_dots.simps)

lemma empty_not_allowed: "[] \<notin> set ALLOWED_EXTENSIONS"
  by (simp add: ALLOWED_EXTENSIONS_def lit_def)

lemma lower_Nil: "lower db [] = []"
  by (simp add: lower_def)

lemma no_extension_rejected: "snd (splitext (basename f)) = [] \<Longrightarrow> \<not> file_filter db f"
  by (simp add: file_filter_def file_extension_def lower_Nil empty_not_allowed)

lemmas filter_eval = file_filter_def file_extension_def lit_def splitext_def basename_def SEP_def EXTSEP_def lower_def lower_at_def upper_def upper_cp_def ligature_db_def ALLOWED_EXTENSIONS_def

text \<open>
  Claim C1 as stated says that \<open>accept(f) == accept(f.upper())\<close> for every filename. It fails
  at the name \<open>x.\<close>, \<open>U+FB02\<close>, \<open>ac\<close>: \<open>str.upper\<close> expands the ligature \<open>U+FB02\<close> to \<open>FL\<close>, so
  the upper-cased name is \<open>X.FLAC\<close> and is accepted, while the name itself has the extension
  \<open>.\<close>, \<open>U+FB02\<close>, \<open>ac\<close>, which \<open>str.lower\<close> leaves as it is, and is rejected.
\<close>

theorem upper_changes_acceptance_counterexample:
  "file_filter ligature_db (upper ligature_db (lit ''x.'' @ [0xFB02] @ lit ''ac''))
     \<noteq> file_filter ligature_db (lit ''x.'' @ [0xFB02] @ lit ''ac'')"
  by (simp add: filter_eval)

text \<open>
  Claim C1, as amended: the filter accepts a path exactly when the extension of its base name,
  lower-cased and with its leading dot, is one of \<open>.mp3\<close>, \<open>.wav\<close>, \<open>.flac\<close>, \<open>.m4a\<close>,
  \<open>.webm\<close>; a name without a dot is rejected; and for a name of ASCII characters the
  decision for the upper-cased name is the decision for the name. The decision is a function
  of the name and of the case tables of the interpreter.
\<close>

theorem file_filter_spec:
  "(file_filter db f \<longleftrightarrow>
      lower db (snd (splitext (basename f)))
        \<in> {lit ''.mp3'', lit ''.wav'', lit ''.flac'', lit ''.m4a'', lit ''.webm''})
   \<and> (EXTSEP \<notin> set (basename f) \<longrightarrow> \<not> file_filter db f)
   \<and> ((\<forall>c\<in>set f. c < 128) \<longrightarrow> file_filter db (upper db f) = file_filter db f)"
proof (intro conjI impI)
  show "file_filter db f \<longleftrightarrow>
      lower db (snd (splitext (basename f)))
        \<in> {lit ''.mp3'', lit ''.wav'', lit ''.flac'', lit ''.m4a'', lit ''.webm''}"
    by (simp add: file_filter_def file_extension_def ALLOWED_EXTENSIONS_def)
next
  assume "EXTSEP \<notin> set (basename f)"
  then show "\<not> file_filter db f"
    by (simp add: no_extension_rejected splitext_no_dot)
next
  assume "\<forall>c\<in>set f. c < 128"
  then show "file_filter db (upper db f) = file_filter db f"
    by (simp add: file_filter_def file_extension_upper)
qed

text \<open>
  Claim C1, witness: \<open>notes\<close> has no dot and is rejected; \<open>/tmp/a.Mp3\<close> is ASCII and is
  accepted, as is its upper-cased form.
\<close>

theorem file_filter_spec_witness:
  "(EXTSEP \<notin> set (basename (lit ''notes'')) \<and> \<not> file_filter ligature_db (lit ''notes''))
   \<and> (file_filter ligature_db (upper ligature_db (lit ''/tmp/a.Mp3''))
        \<and> file_filter ligature_db (lit ''/tmp/a.Mp3''))"
proof -
  have h1: "EXTSEP \<notin> set (basename (lit ''notes''))"
    by (simp add: filter_eval)
  have h2: "\<forall>c\<in>set (lit ''/tmp/a.Mp3''). c < 128"
    by (simp add: lit_def)
  have h3: "file_filter ligature_db (lit ''/tmp/a.Mp3'')"
    by (simp add: filter_eval)
  show ?thesis
    using h1 h2 h3 file_filter_spec [of ligature_db "lit ''notes''"]
      file_filter_spec [of ligature_db "lit ''/tmp/a.Mp3''"]
    by blast
qed

lemma splitext_dotfile:
  assumes "EXTSEP \<notin> set rest" and "SEP \<notin> set rest"
  shows "splitext (EXTSEP # rest) = (EXTSEP # rest, [])"
proof -
  have sep: "rfind (EXTSEP # rest) SEP = - 1"
    using assms(2) by (simp add: rfind_absent SEP_def EXTSEP_def)
  have dot: "rfind (EXTSEP # rest) EXTSEP = 0"
    using assms(1) by (simp add: rfind_absent Let_def)
  have "\<not> skip_leading_dots (EXTSEP # rest) 0 0"
    by (subst skip_leading_dots.simps) simp
  then show ?thesis
    by (simp add: splitext_def Let_def sep dot del: skip_leading_dots.simps rfind.simps)
qed

text \<open>
  Claim C9: a name that is nothing but an allowed extension, such as \<open>.mp3\<close>, alone or
  behind a directory, is rejected: \<open>splitext\<close> takes the whole name for the stem and gives
  the empty extension.
\<close>

theorem bare_extension_rejected:
  assumes "e \<in> set ALLOWED_EXTENSIONS"
  shows "splitext e = (e, []) \<and> \<not> file_filter db e \<and> \<not> file_filter db (d @ [SEP] @ e)"
proof -
  obtain rest where e: "e = EXTSEP # rest" and nd: "EXTSEP \<notin> set rest" and ns: "SEP \<notin> set rest"
    using assms by (auto simp: ALLOWED_EXTENSIONS_def lit_def EXTSEP_def SEP_def)
  have s: "splitext e = (e, [])"
    unfolding e by (rule splitext_dotfile [OF nd ns])
  have ne: "SEP \<notin> set e"
    using ns by (simp add: e SEP_def EXTSEP_def)
  have b1: "basename e = e" by (rule basename_plain [OF ne])
  have b2: "basename (d @ [SEP] @ e) = e" using basename_strip [OF ne, of d] by simp
  show ?thesis
    using s b1 b2 by (simp add: no_extension_rejected)
qed

text \<open>
  Claim C9, witness: \<open>.mp3\<close>, alone and in the watch directory.
\<close>

theorem bare_extension_rejected_witness:
  "lit ''.mp3'' \<in> set ALLOWED_EXTENSIONS
   \<and> splitext (lit ''.mp3'') = (lit ''.mp3'', [])
   \<and> \<not> file_filter ligature_db (lit ''.mp3'')
   \<and> \<not> file_filter ligature_db (lit ''/tmp/audio_to_process/.mp3'')"
proof -
  have h: "lit ''.mp3'' \<in> set ALLOWED_EXTENSIONS"
    by (simp add: ALLOWED_EXTENSIONS_def)
  have p: "lit ''/tmp/audio_to_process/.mp3'' = lit ''/tmp/audio_to_process'' @ [SEP] @ lit ''.mp3''"
    by (simp add: lit_def SEP_def)
  show ?thesis
    using h bare_extension_rejected [OF h, of ligature_db "lit ''/tmp/audio_to_process''"]
    by (simp add: p)
qed

lemmas io_defs = pure_def lift_def bind_def try_except_def emit_def print_def sleep_def
  read_binary_def service_call_def write_text_def is_Exception_def

lemma on_created_directory: "is_directory ev \<Longrightarrow> on_created en ev w = (Inr (), w)"
  by (simp add: on_created_def pure_def)

lemma on_created_rejected:
  "\<not> is_directory ev \<Longrightarrow> \<not> file_filter (unicode en) (src_path ev) \<Longrightarrow>
     on_created en ev w = (Inr (), emit (Print (Ignored_line (basename (src_path ev)))) w)"
  by (simp add: on_created_def print_def Let_def)

lemma on_created_accepted:
  "\<not> is_directory ev \<Longrightarrow> file_filter (unicode en) (src_path ev) \<Longrightarrow>
     on_created en ev w =
       transcribe_file en (src_path ev)
         (emit (Sleep 1) (emit (Print (New_file_detected (basename (src_path ev)))) w))"
  by (simp add: on_created_def print_def sleep_def bind_def Let_def)

lemma transcribe_file_frame:
  "transcribe_file en p w =
     (fst (transcribe_file en p (w\<lparr>trace := []\<rparr>)),
      (snd (transcribe_file en p (w\<lparr>trace := []\<rparr>)))
        \<lparr>trace := trace w @ trace (snd (transcribe_file en p (w\<lparr>trace := []\<rparr>)))\<rparr>)"
  unfolding transcribe_file_def transcribe_try_def io_defs Let_def
  by (auto split: sum.splits option.splits prod.splits pyobj.splits)

lemma transcribe_file_returns: "fst (transcribe_file en p w) = Inr ()"
  unfolding transcribe_file_def transcribe_try_def io_defs Let_def
  by (auto split: sum.splits option.splits prod.splits pyobj.splits)

lemma on_created_returns: "fst (on_created en ev w) = Inr ()"
  by (cases "is_directory ev"; cases "file_filter (unicode en) (src_path ev)")
     (simp_all add: on_created_directory on_created_rejected on_created_accepted
        transcribe_file_returns)

lemma on_created_frame:
  "on_created en ev w =
     (fst (on_created en ev (w\<lparr>trace := []\<rparr>)),
      (snd (on_created en ev (w\<lparr>trace := []\<rparr>)))
        \<lparr>trace := trace w @ trace (snd (on_created en ev (w\<lparr>trace := []\<rparr>)))\<rparr>)"
proof (cases "is_directory ev")
  case True
  then show ?thesis by (simp add: on_created_directory)
next
  case nd: False
  show ?thesis
  proof (cases "file_filter (unicode en) (src_path ev)")
    case False
    with nd show ?thesis by (simp add: on_created_rejected emit_def)
  next
    case True
    let ?l = "Print (New_file_detected (basename (src_path ev)))"
    let ?X = "transcribe_file en (src_path ev) (w\<lparr>trace := []\<rparr>)"
    have a: "on_created en ev w =
        (fst ?X, (snd ?X)\<lparr>trace := (trace w @ [?l, Sleep 1]) @ trace (snd ?X)\<rparr>)"
      using nd True
        transcribe_file_frame [of en "src_path ev" "emit (Sleep 1) (emit ?l w)"]
      by (simp add: on_created_accepted emit_def)
    have b: "on_created en ev (w\<lparr>trace := []\<rparr>) =
        (fst ?X, (snd ?X)\<lparr>trace := [?l, Sleep 1] @ trace (snd ?X)\<rparr>)"
      using nd True
        transcribe_file_frame [of en "src_path ev" "emit (Sleep 1) (emit ?l (w\<lparr>trace := []\<rparr>))"]
      by (simp add: on_created_accepted emit_def)
    show ?thesis by (simp add: a b)
  qed
qed

lemma trace_on_created: "trace (snd (on_created en ev w)) = trace w @ emitted en ev w"
  by (subst on_created_frame, simp add: emitted_def, subst on_created_frame, simp)

lemma emitted_accepted:
  "\<not> is_directory ev \<Longrightarrow> file_filter (unicode en) (src_path ev) \<Longrightarrow>
     emitted en ev w =
       [Print (New_file_detected (basename (src_path ev))), Sleep 1]
         @ trace (snd (transcribe_file en (src_path ev) (w\<lparr>trace := []\<rparr>)))"
  apply (simp add: emitted_def on_created_accepted emit_def)
  apply (subst transcribe_file_frame)
  apply simp
  done

lemma files_accepted:
  "\<not> is_directory ev \<Longrightarrow> file_filter (unicode en) (src_path ev) \<Longrightarrow>
     files (snd (on_created en ev w)) =
       files (snd (transcribe_file en (src_path ev) (w\<lparr>trace := []\<rparr>)))"
  apply (simp add: on_created_accepted emit_def)
  apply (subst transcribe_file_frame)
  apply simp
  done

lemmas obs_defs = outcomes_def service_calls_def file_accesses_def

lemma transcribe_file_outcome:
  "\<exists>oc. outcomes (trace (snd (transcribe_file en p (w\<lparr>trace := []\<rparr>)))) = [oc]
       \<and> status oc \<in> {Success, Error}"
  unfolding transcribe_file_def transcribe_try_def io_defs Let_def obs_defs slice80_def
  by (auto split: sum.splits option.splits prod.splits pyobj.splits)

lemma transcribe_try_trace_irrelevant:
  "fst (transcribe_try en p f (w\<lparr>trace := tr\<rparr>)) = fst (transcribe_try en p f w)"
  unfolding transcribe_try_def io_defs Let_def slice80_def
  by (auto split: sum.splits option.splits prod.splits pyobj.splits)

lemma transcribe_file_failure:
  assumes "fst (transcribe_try en p (basename p) w) = Inl e"
  shows "outcomes (trace (snd (transcribe_file en p (w\<lparr>trace := []\<rparr>))))
           = [\<lparr>status = Error, subject = basename p, detail = Some e\<rparr>]"
  using assms
  unfolding transcribe_file_def transcribe_try_def io_defs Let_def obs_defs slice80_def
  by (auto split: sum.splits option.splits prod.splits pyobj.splits)

lemma transcribe_file_one_attempt:
  "length (service_calls (trace (snd (transcribe_file en p (w\<lparr>trace := []\<rparr>))))) \<le> 1
   \<and> count_list (trace (snd (transcribe_file en p (w\<lparr>trace := []\<rparr>)))) (Read_file p) = 1"
  unfolding transcribe_file_def transcribe_try_def io_defs Let_def obs_defs slice80_def
  by (auto split: sum.splits option.splits prod.splits pyobj.splits)

lemma transcribe_file_service_error:
  assumes "read_fault en p = None" and "files w p = Some data" and "service en data = Inl e"
  shows "transcribe_file en p (w\<lparr>trace := []\<rparr>) =
           (Inr (), w\<lparr>trace := [Print (Processing (basename p)), Read_file p, Transcribe data,
                                 Print (Api_failed (basename p) e)]\<rparr>)"
  using assms
  unfolding transcribe_file_def transcribe_try_def io_defs Let_def
  by (auto split: sum.splits option.splits prod.splits pyobj.splits)

lemma transcribe_file_success:
  assumes "Print (Saved q) \<in> set (trace (snd (transcribe_file en p (w\<lparr>trace := []\<rparr>))))"
  shows "\<exists>data resp t bs.
           read_fault en p = None \<and> files w p = Some data \<and> service en data = Inr resp
         \<and> extract_transcript resp = Inr (Str t) \<and> utf8_encode t = Inr bs
         \<and> open_fault en q = None \<and> write_fault en q = None
         \<and> q = output_path (basename p)
         \<and> transcribe_file en p (w\<lparr>trace := []\<rparr>) =
             (Inr (), w\<lparr>files := (files w)(q \<mapsto> bs),
                        trace := [Print (Processing (basename p)), Read_file p, Transcribe data,
                                  Open_write q, Print (Saved q), Print (Preview (take 80 t))]\<rparr>)"
  using assms
  unfolding transcribe_file_def transcribe_try_def io_defs Let_def slice80_def
  by (auto split: sum.splits option.splits prod.splits pyobj.splits)

lemma dispatch_events_returns: "fst (dispatch_events evs w) = Inr ()"
proof (induction evs arbitrary: w)
  case Nil
  show ?case by simp
next
  case (Cons x evs)
  obtain en ev where x: "x = (en, ev)" by (cases x)
  obtain r w' where oc: "on_created en ev w = (r, w')" by (cases "on_created en ev w")
  have "r = Inr ()" using on_created_returns [of en ev w] oc by simp
  with Cons x oc show ?case by simp
qed

lemma dispatch_events_step:
  "dispatch_events ((en, ev) # rest) w = dispatch_events rest (snd (on_created en ev w))"
proof -
  obtain r w' where oc: "on_created en ev w = (r, w')" by (cases "on_created en ev w")
  have "r = Inr ()" using on_created_returns [of en ev w] oc by simp
  with oc show ?thesis by simp
qed






lemma utf8_encode_ascii: "\<forall>c\<in>set t. c < 128 \<Longrightarrow> utf8_encode t = Inr (map of_nat t)"
  by (induction t) (auto simp: utf8_cp_def)

lemma saved_of_success:
  "\<lparr>status = Success, subject = q, detail = None\<rparr> \<in> set (outcomes tr) \<Longrightarrow> Print (Saved q) \<in> set tr"
proof (induction tr)
  case Nil
  then show ?case by (simp add: outcomes_def)
next
  case (Cons a tr)
  show ?case
  proof (cases "\<lparr>status = Success, subject = q, detail = None\<rparr> \<in> set (outcome_of a)")
    case True
    then have "a = Print (Saved q)"
      by (cases a rule: outcome_of.cases) auto
    then show ?thesis by simp
  next
    case False
    with Cons show ?thesis by (auto simp: outcomes_def)
  qed
qed

lemma files_determine_run:
  assumes "files w1 = files w2"
  shows "emitted en ev w1 = emitted en ev w2
       \<and> files (snd (on_created en ev w1)) = files (snd (on_created en ev w2))"
proof -
  have eq: "w1\<lparr>trace := []\<rparr> = w2\<lparr>trace := []\<rparr>"
    using assms by (cases w1; cases w2) simp
  have a: "\<And>w. emitted en ev w = trace (snd (on_created en ev (w\<lparr>trace := []\<rparr>)))"
    by (simp add: emitted_def, subst on_created_frame, simp)
  have b: "\<And>w. files (snd (on_created en ev w)) = files (snd (on_created en ev (w\<lparr>trace := []\<rparr>)))"
    by (subst on_created_frame, simp)
  show ?thesis
    using a [of w1] a [of w2] b [of w1] b [of w2] eq by simp
qed

lemma accepted_success:
  assumes "\<not> is_directory ev" and "file_filter (unicode en) (src_path ev)"
    and "outcomes (emitted en ev w) = [\<lparr>status = Success, subject = q, detail = None\<rparr>]"
  shows "\<exists>data resp t bs.
           files w (src_path ev) = Some data \<and> service en data = Inr resp
         \<and> extract_transcript resp = Inr (Str t) \<and> utf8_encode t = Inr bs
         \<and> q = output_path (basename (src_path ev))
         \<and> files (snd (on_created en ev w)) = (files w)(q \<mapsto> bs)
         \<and> emitted en ev w =
             [Print (New_file_detected (basename (src_path ev))), Sleep 1,
              Print (Processing (basename (src_path ev))), Read_file (src_path ev),
              Transcribe data, Open_write q, Print (Saved q), Print (Preview (take 80 t))]"
proof -
  let ?p = "src_path ev"
  have "Print (Saved q) \<in> set (emitted en ev w)"
    using assms(3) saved_of_success [of q "emitted en ev w"] by simp
  then have "Print (Saved q) \<in> set (trace (snd (transcribe_file en ?p (w\<lparr>trace := []\<rparr>))))"
    by (simp add: emitted_accepted [OF assms(1,2)])
  from transcribe_file_success [OF this]
  obtain data resp t bs where
    d: "files w ?p = Some data" "service en data = Inr resp"
       "extract_transcript resp = Inr (Str t)" "utf8_encode t = Inr bs"
       "q = output_path (basename ?p)"
    and tf: "transcribe_file en ?p (w\<lparr>trace := []\<rparr>) =
             (Inr (), w\<lparr>files := (files w)(q \<mapsto> bs),
                        trace := [Print (Processing (basename ?p)), Read_file ?p, Transcribe data,
                                  Open_write q, Print (Saved q), Print (Preview (take 80 t))]\<rparr>)"
    by blast
  have f: "files (snd (on_created en ev w)) = (files w)(q \<mapsto> bs)"
    by (simp add: files_accepted [OF assms(1,2)] tf)
  have e: "emitted en ev w =
             [Print (New_file_detected (basename ?p)), Sleep 1,
              Print (Processing (basename ?p)), Read_file ?p,
              Transcribe data, Open_write q, Print (Saved q), Print (Preview (take 80 t))]"
    by (simp add: emitted_accepted [OF assms(1,2)] tf)
  show ?thesis using d f e by blast
qed

lemma trace_dispatch_events: "\<exists>later. trace (snd (dispatch_events evs w)) = trace w @ later"
proof (induction evs arbitrary: w)
  case Nil
  show ?case by simp
next
  case (Cons x evs)
  obtain en ev where x: "x = (en, ev)" by (cases x)
  obtain later where
    "trace (snd (dispatch_events evs (snd (on_created en ev w)))) =
       trace (snd (on_created en ev w)) @ later"
    using Cons by blast
  then show ?case
    by (simp add: x dispatch_events_step trace_on_created del: dispatch_events.simps)
qed




text \<open>
  Claim C5: for an accepted file event, if the body of the \<open>try\<close> statement raises an
  exception \<open>e\<close>, at whichever statement and of whichever class, the handler still returns
  normally, the one outcome it reports is Error with \<open>e\<close> as its detail, the file was read
  once and the service was called at most once (no second attempt), and the delivery of
  events goes on with the next event and never ends with an exception.
\<close>

theorem failure_is_contained:
  assumes "\<not> is_directory ev" and "file_filter (unicode en) (src_path ev)"
    and "fst (transcribe_try en (src_path ev) (basename (src_path ev)) w) = Inl e"
  shows "fst (on_created en ev w) = Inr ()
       \<and> outcomes (emitted en ev w) =
           [\<lparr>status = Error, subject = basename (src_path ev), detail = Some e\<rparr>]
       \<and> length (service_calls (emitted en ev w)) \<le> 1
       \<and> count_list (emitted en ev w) (Read_file (src_path ev)) = 1
       \<and> dispatch_events ((en, ev) # rest) w = dispatch_events rest (snd (on_created en ev w))
       \<and> fst (dispatch_events ((en, ev) # rest) w) = Inr ()"
proof -
  let ?p = "src_path ev"
  have o: "outcomes (emitted en ev w) = [\<lparr>status = Error, subject = basename ?p, detail = Some e\<rparr>]"
    using transcribe_file_failure [OF assms(3)]
    by (simp add: emitted_accepted [OF assms(1,2)] outcomes_def)
  have c: "length (service_calls (emitted en ev w)) \<le> 1
         \<and> count_list (emitted en ev w) (Read_file ?p) = 1"
    using transcribe_file_one_attempt [of en ?p w]
    by (simp add: emitted_accepted [OF assms(1,2)] service_calls_def)
  show ?thesis
    using o c on_created_returns [of en ev w] dispatch_events_step [of en ev rest w]
      dispatch_events_returns [of "(en, ev) # rest" w]
    by simp
qed

text \<open>
  Claim C6: for an accepted file event whose file is read and whose request the service answers
  with an exception, no file changes, the only file opened is the source, for reading, the
  outcome is Error with that exception, and the next event is handled exactly as it would
  have been handled without the failed run.
\<close>

theorem service_error_leaves_no_file:
  assumes "\<not> is_directory ev" and "file_filter (unicode en) (src_path ev)"
    and "read_fault en (src_path ev) = None" and "files w (src_path ev) = Some data"
    and "service en data = Inl e"
  shows "files (snd (on_created en ev w)) = files w
       \<and> emitted en ev w =
           [Print (New_file_detected (basename (src_path ev))), Sleep 1,
            Print (Processing (basename (src_path ev))), Read_file (src_path ev),
            Transcribe data, Print (Api_failed (basename (src_path ev)) e)]
       \<and> outcomes (emitted en ev w) =
           [\<lparr>status = Error, subject = basename (src_path ev), detail = Some e\<rparr>]
       \<and> file_accesses (emitted en ev w) = [src_path ev]
       \<and> dispatch_events ((en, ev) # (en2, ev2) # rest) w =
           dispatch_events rest (snd (on_created en2 ev2 (snd (on_created en ev w))))
       \<and> emitted en2 ev2 (snd (on_created en ev w)) = emitted en2 ev2 w
       \<and> files (snd (on_created en2 ev2 (snd (on_created en ev w))))
           = files (snd (on_created en2 ev2 w))"
proof -
  let ?p = "src_path ev"
  note tf = transcribe_file_service_error [OF assms(3,4,5)]
  have f: "files (snd (on_created en ev w)) = files w"
    by (simp add: files_accepted [OF assms(1,2)] tf)
  have e: "emitted en ev w =
           [Print (New_file_detected (basename ?p)), Sleep 1, Print (Processing (basename ?p)),
            Read_file ?p, Transcribe data, Print (Api_failed (basename ?p) e)]"
    by (simp add: emitted_accepted [OF assms(1,2)] tf)
  have d: "dispatch_events ((en, ev) # (en2, ev2) # rest) w =
           dispatch_events rest (snd (on_created en2 ev2 (snd (on_created en ev w))))"
    by (simp only: dispatch_events_step)
  show ?thesis
    using f e d files_determine_run [OF f, of en2 ev2]
    by (simp add: obs_defs)
qed

text \<open>
  Claim C7: the output path is a function of the base name of the source. When an event for a
  file of the same name is handled a second time and both runs end in Success, both report the
  same path, the second run adds no file to those present after the first, and the file at
  that path holds the transcript of the second run.
\<close>

theorem reprocessing_overwrites:
  assumes "\<not> is_directory ev1" and "file_filter (unicode en1) (src_path ev1)"
    and "\<not> is_directory ev2" and "file_filter (unicode en2) (src_path ev2)"
    and "basename (src_path ev2) = basename (src_path ev1)"
    and "outcomes (emitted en1 ev1 w) = [\<lparr>status = Success, subject = q1, detail = None\<rparr>]"
    and "outcomes (emitted en2 ev2 (snd (on_created en1 ev1 w)))
           = [\<lparr>status = Success, subject = q2, detail = None\<rparr>]"
  shows "q2 = q1
       \<and> output_path (basename (src_path ev2)) = output_path (basename (src_path ev1))
       \<and> dom (files (snd (on_created en2 ev2 (snd (on_created en1 ev1 w)))))
           = dom (files (snd (on_created en1 ev1 w)))
       \<and> (\<exists>data resp t bs2.
             files (snd (on_created en1 ev1 w)) (src_path ev2) = Some data
           \<and> service en2 data = Inr resp \<and> extract_transcript resp = Inr (Str t)
           \<and> utf8_encode t = Inr bs2
           \<and> files (snd (on_created en2 ev2 (snd (on_created en1 ev1 w))))
                = (files w)(q1 \<mapsto> bs2))"
proof -
  let ?w1 = "snd (on_created en1 ev1 w)"
  from accepted_success [OF assms(1,2,6)]
  obtain bs1 where q1: "q1 = output_path (basename (src_path ev1))"
    and f1: "files ?w1 = (files w)(q1 \<mapsto> bs1)"
    by blast
  from accepted_success [OF assms(3,4,7)]
  obtain data resp t bs2 where
    d: "files ?w1 (src_path ev2) = Some data" "service en2 data = Inr resp"
       "extract_transcript resp = Inr (Str t)" "utf8_encode t = Inr bs2"
    and q2: "q2 = output_path (basename (src_path ev2))"
    and f2: "files (snd (on_created en2 ev2 ?w1)) = (files ?w1)(q2 \<mapsto> bs2)"
    by blast
  have eq: "q2 = q1" by (simp add: q1 q2 assms(5))
  have f: "files (snd (on_created en2 ev2 ?w1)) = (files w)(q1 \<mapsto> bs2)"
    by (simp add: f2 f1 eq)
  have dm: "dom (files (snd (on_created en2 ev2 ?w1))) = dom (files ?w1)"
    by (auto simp: f2 f1 eq)
  show ?thesis
    using eq assms(5) d f dm by auto
qed

text \<open>
  Claim C8: when two events are delivered one after the other, the trace is the earlier trace,
  then everything the handler does for the first event, then everything it does for the second,
  then what later events add; the requests to the service appear in that order; if the first
  event is an accepted file, its part of the trace holds its one outcome, Success or Error;
  and if the second is an accepted file, its part begins with its detection line.
\<close>

theorem events_processed_in_order:
  "(\<exists>later. trace (snd (dispatch_events ((en1, ev1) # (en2, ev2) # rest) w)) =
       trace w @ emitted en1 ev1 w @ emitted en2 ev2 (snd (on_created en1 ev1 w)) @ later)
   \<and> service_calls (trace (snd (dispatch_events [(en1, ev1), (en2, ev2)] w))) =
       service_calls (trace w) @ service_calls (emitted en1 ev1 w)
         @ service_calls (emitted en2 ev2 (snd (on_created en1 ev1 w)))
   \<and> (\<not> is_directory ev1 \<and> file_filter (unicode en1) (src_path ev1) \<longrightarrow>
        (\<exists>oc. outcomes (emitted en1 ev1 w) = [oc] \<and> status oc \<in> {Success, Error}))
   \<and> (\<not> is_directory ev2 \<and> file_filter (unicode en2) (src_path ev2) \<longrightarrow>
        (\<exists>acts. emitted en2 ev2 (snd (on_created en1 ev1 w)) =
           Print (New_file_detected (basename (src_path ev2))) # acts))"
proof (intro conjI impI)
  let ?w1 = "snd (on_created en1 ev1 w)"
  let ?w2 = "snd (on_created en2 ev2 ?w1)"
  have t2: "trace ?w2 = trace w @ emitted en1 ev1 w @ emitted en2 ev2 ?w1"
    by (simp add: trace_on_created)
  obtain later where "trace (snd (dispatch_events rest ?w2)) = trace ?w2 @ later"
    using trace_dispatch_events [of rest ?w2] by blast
  then show "\<exists>later. trace (snd (dispatch_events ((en1, ev1) # (en2, ev2) # rest) w)) =
       trace w @ emitted en1 ev1 w @ emitted en2 ev2 ?w1 @ later"
    by (simp add: dispatch_events_step t2 del: dispatch_events.simps)
  have "dispatch_events [(en1, ev1), (en2, ev2)] w = dispatch_events [] ?w2"
    by (simp only: dispatch_events_step)
  then show "service_calls (trace (snd (dispatch_events [(en1, ev1), (en2, ev2)] w))) =
       service_calls (trace w) @ service_calls (emitted en1 ev1 w)
         @ service_calls (emitted en2 ev2 ?w1)"
    by (simp add: t2 service_calls_def)
next
  assume "\<not> is_directory ev1 \<and> file_filter (unicode en1) (src_path ev1)"
  then show "\<exists>oc. outcomes (emitted en1 ev1 w) = [oc] \<and> status oc \<in> {Success, Error}"
    using transcribe_file_outcome [of en1 "src_path ev1" w]
    by (simp add: emitted_accepted outcomes_def)
next
  assume "\<not> is_directory ev2 \<and> file_filter (unicode en2) (src_path ev2)"
  then show "\<exists>acts. emitted en2 ev2 (snd (on_created en1 ev1 w)) =
           Print (New_file_detected (basename (src_path ev2))) # acts"
    by (simp add: emitted_accepted)
qed

text \<open>
  Claim C10: for a directory event the handler returns at once and leaves the world as it was:
  nothing printed, no outcome, no request to the service; a rejected file event, in contrast,
  reports the Ignored outcome.
\<close>

theorem directory_event_is_silent:
  "(is_directory ev \<longrightarrow>
      on_created en ev w = (Inr (), w) \<and> emitted en ev w = []
      \<and> outcomes (emitted en ev w) = [] \<and> service_calls (emitted en ev w) = [])
   \<and> (\<not> is_directory ev \<and> \<not> file_filter (unicode en) (src_path ev) \<longrightarrow>
        outcomes (emitted en ev w) =
          [\<lparr>status = Ignored, subject = basename (src_path ev), detail = None\<rparr>])"
  by (simp add: on_created_directory on_created_rejected emitted_def emit_def obs_defs)

lemma transcribe_file_ok:
  assumes "read_fault en p = None" and "files w p = Some data" and "service en data = Inr resp"
    and "extract_transcript resp = Inr (Str t)" and "utf8_encode t = Inr bs"
    and "open_fault en (output_path (basename p)) = None"
    and "write_fault en (output_path (basename p)) = None"
  shows "transcribe_file en p (w\<lparr>trace := []\<rparr>) =
           (Inr (), w\<lparr>files := (files w)(output_path (basename p) \<mapsto> bs),
                      trace := [Print (Processing (basename p)), Read_file p, Transcribe data,
                                Open_write (output_path (basename p)),
                                Print (Saved (output_path (basename p))),
                                Print (Preview (take 80 t))]\<rparr>)"
  using assms
  unfolding transcribe_file_def transcribe_try_def io_defs Let_def slice80_def
  by (auto split: sum.splits option.splits prod.splits pyobj.splits)

lemma accepted_run_ok:
  assumes "\<not> is_directory ev" and "file_filter (unicode en) (src_path ev)"
    and "read_fault en (src_path ev) = None" and "files w (src_path ev) = Some data"
    and "service en data = Inr resp"
    and "extract_transcript resp = Inr (Str t)" and "utf8_encode t = Inr bs"
    and "open_fault en (output_path (basename (src_path ev))) = None"
    and "write_fault en (output_path (basename (src_path ev))) = None"
  shows "outcomes (emitted en ev w) =
           [\<lparr>status = Success, subject = output_path (basename (src_path ev)), detail = None\<rparr>]
       \<and> service_calls (emitted en ev w) = [data]
       \<and> files (snd (on_created en ev w)) = (files w)(output_path (basename (src_path ev)) \<mapsto> bs)"
  by (simp add: emitted_accepted [OF assms(1,2)] files_accepted [OF assms(1,2)]
      transcribe_file_ok [OF assms(3-9)] obs_defs)

lemma ex_hello: "extract_transcript hello_response = Inr (Str (lit ''hello world''))"
  by (simp add: hello_response_def extract_transcript_def index0_def)

lemma ex_utf8: "utf8_encode (lit ''hello world'') = Inr (map of_nat (lit ''hello world''))"
  by (rule utf8_encode_ascii) (simp add: lit_def)

lemma ex_filter_quiet: "file_filter ligature_db (lit ''/tmp/audio_to_process/quiet.wav'')"
  by (simp add: filter_eval)

lemma ex_filter_loud: "file_filter ligature_db (lit ''/tmp/audio_to_process/loud.mp3'')"
  by (simp add: filter_eval)

lemma ex_filter_notes: "\<not> file_filter ligature_db (lit ''/tmp/audio_to_process/notes.txt'')"
  by (simp add: filter_eval)

lemma ex_path_quiet:
  "output_path (basename (lit ''/tmp/audio_to_process/quiet.wav''))
     = lit ''/tmp/transcripts/quiet_transcript.txt''"
  by (simp add: output_path_def transcript_filename_def join_def TRANSCRIPT_DIRECTORY_def
      filter_eval)

lemma ex_path_loud:
  "output_path (basename (lit ''/tmp/audio_to_process/loud.mp3''))
     = lit ''/tmp/transcripts/loud_transcript.txt''"
  by (simp add: output_path_def transcript_filename_def join_def TRANSCRIPT_DIRECTORY_def
      filter_eval)

lemma ex_files_quiet: "files watch_world (lit ''/tmp/audio_to_process/quiet.wav'') = Some [4, 5]"
  by (simp add: watch_world_def lit_def)

lemma ex_files_loud: "files watch_world (lit ''/tmp/audio_to_process/loud.mp3'') = Some [1, 2, 3]"
  by (simp add: watch_world_def lit_def)

lemma ex_calm [simp]:
  "unicode calm_env = ligature_db" "read_fault calm_env p = None"
  "service calm_env b = Inr hello_response" "open_fault calm_env p = None"
  "write_fault calm_env p = None"
  by (simp_all add: calm_env_def)

lemma ex_offline [simp]:
  "unicode offline_env = ligature_db" "read_fault offline_env p = None"
  "service offline_env b = Inl (ServiceError (lit ''network unreachable''))"
  "open_fault offline_env p = None" "write_fault offline_env p = None"
  by (simp_all add: offline_env_def calm_env_def)

lemma ex_created [simp]: "\<not> is_directory (created p)" "src_path (created p) = p"
  by (simp_all add: created_def)

lemma ex_run_quiet:
  "outcomes (emitted calm_env (created (lit ''/tmp/audio_to_process/quiet.wav'')) watch_world) =
     [\<lparr>status = Success, subject = lit ''/tmp/transcripts/quiet_transcript.txt'', detail = None\<rparr>]"
  using accepted_run_ok [of "created (lit ''/tmp/audio_to_process/quiet.wav'')" calm_env
      watch_world "[4, 5]" hello_response "lit ''hello world''"
      "map of_nat (lit ''hello world'')"]
  by (simp add: ex_filter_quiet ex_files_quiet ex_hello ex_utf8 ex_path_quiet)




lemma ex_try_loud:
  "fst (transcribe_try offline_env (lit ''/tmp/audio_to_process/loud.mp3'')
          (basename (lit ''/tmp/audio_to_process/loud.mp3'')) watch_world)
     = Inl (ServiceError (lit ''network unreachable''))"
  by (simp add: transcribe_try_def io_defs ex_files_loud)

lemma ex_try_missing:
  "fst (transcribe_try calm_env (lit ''/tmp/audio_to_process/gone.wav'')
          (basename (lit ''/tmp/audio_to_process/gone.wav'')) watch_world)
     = Inl (FileNotFoundError (lit ''/tmp/audio_to_process/gone.wav''))"
proof -
  have "files watch_world (lit ''/tmp/audio_to_process/gone.wav'') = None"
    by (simp add: watch_world_def lit_def)
  then show ?thesis
    by (simp add: transcribe_try_def io_defs)
qed

lemma ex_filter_gone: "file_filter ligature_db (lit ''/tmp/audio_to_process/gone.wav'')"
  by (simp add: filter_eval)

text \<open>
  Claim C5, witness: the service raising for \<open>loud.mp3\<close>, and the source file \<open>gone.wav\<close>
  missing when it is read.
\<close>

theorem failure_is_contained_witness:
  "(fst (transcribe_try offline_env (lit ''/tmp/audio_to_process/loud.mp3'')
           (basename (lit ''/tmp/audio_to_process/loud.mp3'')) watch_world)
      = Inl (ServiceError (lit ''network unreachable''))
    \<and> fst (on_created offline_env (created (lit ''/tmp/audio_to_process/loud.mp3'')) watch_world) = Inr ()
    \<and> outcomes (emitted offline_env (created (lit ''/tmp/audio_to_process/loud.mp3'')) watch_world)
        = [\<lparr>status = Error, subject = basename (lit ''/tmp/audio_to_process/loud.mp3''),
            detail = Some (ServiceError (lit ''network unreachable''))\<rparr>]
    \<and> count_list (emitted offline_env (created (lit ''/tmp/audio_to_process/loud.mp3'')) watch_world)
        (Read_file (lit ''/tmp/audio_to_process/loud.mp3'')) = 1)
   \<and> (fst (transcribe_try calm_env (lit ''/tmp/audio_to_process/gone.wav'')
           (basename (lit ''/tmp/audio_to_process/gone.wav'')) watch_world)
      = Inl (FileNotFoundError (lit ''/tmp/audio_to_process/gone.wav''))
    \<and> outcomes (emitted calm_env (created (lit ''/tmp/audio_to_process/gone.wav'')) watch_world)
        = [\<lparr>status = Error, subject = basename (lit ''/tmp/audio_to_process/gone.wav''),
            detail = Some (FileNotFoundError (lit ''/tmp/audio_to_process/gone.wav''))\<rparr>])"
proof -
  let ?loud = "created (lit ''/tmp/audio_to_process/loud.mp3'')"
  let ?gone = "created (lit ''/tmp/audio_to_process/gone.wav'')"
  have a1: "\<not> is_directory ?loud" and a2: "file_filter (unicode offline_env) (src_path ?loud)"
    and a3: "fst (transcribe_try offline_env (src_path ?loud) (basename (src_path ?loud)) watch_world)
               = Inl (ServiceError (lit ''network unreachable''))"
    by (simp_all add: ex_filter_loud ex_try_loud)
  have b1: "\<not> is_directory ?gone" and b2: "file_filter (unicode calm_env) (src_path ?gone)"
    and b3: "fst (transcribe_try calm_env (src_path ?gone) (basename (src_path ?gone)) watch_world)
               = Inl (FileNotFoundError (lit ''/tmp/audio_to_process/gone.wav''))"
    by (simp_all add: ex_filter_gone ex_try_missing)
  show ?thesis
    using failure_is_contained [OF a1 a2 a3, of "[]"] failure_is_contained [OF b1 b2 b3, of "[]"]
      ex_try_loud ex_try_missing
    by simp
qed

lemma ex_run_loud_offline:
  "files (snd (on_created offline_env (created (lit ''/tmp/audio_to_process/loud.mp3'')) watch_world))
     = files watch_world"
  by (simp add: files_accepted ex_filter_loud
      transcribe_file_service_error [of offline_env _ watch_world "[1, 2, 3]"] ex_files_loud)

text \<open>
  Claim C6, witness: \<open>loud.mp3\<close> with the service down, then \<open>quiet.wav\<close> with the service
  up, which ends in Success.
\<close>

theorem service_error_leaves_no_file_witness:
  "\<not> is_directory (created (lit ''/tmp/audio_to_process/loud.mp3''))
   \<and> file_filter (unicode offline_env) (src_path (created (lit ''/tmp/audio_to_process/loud.mp3'')))
   \<and> read_fault offline_env (src_path (created (lit ''/tmp/audio_to_process/loud.mp3''))) = None
   \<and> files watch_world (src_path (created (lit ''/tmp/audio_to_process/loud.mp3''))) = Some [1, 2, 3]
   \<and> service offline_env [1, 2, 3] = Inl (ServiceError (lit ''network unreachable''))
   \<and> files (snd (on_created offline_env (created (lit ''/tmp/audio_to_process/loud.mp3'')) watch_world))
       = files watch_world
   \<and> file_accesses (emitted offline_env (created (lit ''/tmp/audio_to_process/loud.mp3'')) watch_world)
       = [lit ''/tmp/audio_to_process/loud.mp3'']
   \<and> outcomes (emitted calm_env (created (lit ''/tmp/audio_to_process/quiet.wav''))
        (snd (on_created offline_env (created (lit ''/tmp/audio_to_process/loud.mp3'')) watch_world)))
       = [\<lparr>status = Success, subject = lit ''/tmp/transcripts/quiet_transcript.txt'', detail = None\<rparr>]"
proof -
  let ?loud = "created (lit ''/tmp/audio_to_process/loud.mp3'')"
  let ?quiet = "created (lit ''/tmp/audio_to_process/quiet.wav'')"
  have h1: "\<not> is_directory ?loud"
    and h2: "file_filter (unicode offline_env) (src_path ?loud)"
    and h3: "read_fault offline_env (src_path ?loud) = None"
    and h4: "files watch_world (src_path ?loud) = Some [1, 2, 3]"
    and h5: "service offline_env [1, 2, 3] = Inl (ServiceError (lit ''network unreachable''))"
    by (simp_all add: ex_filter_loud ex_files_loud)
  note r = service_error_leaves_no_file [OF h1 h2 h3 h4 h5, of calm_env ?quiet "[]"]
  have c1: "files (snd (on_created offline_env ?loud watch_world)) = files watch_world"
    using r by blast
  have c2: "file_accesses (emitted offline_env ?loud watch_world) = [src_path ?loud]"
    using r by blast
  have c3: "emitted calm_env ?quiet (snd (on_created offline_env ?loud watch_world))
              = emitted calm_env ?quiet watch_world"
    using r by blast
  have c4: "file_accesses (emitted offline_env ?loud watch_world)
              = [lit ''/tmp/audio_to_process/loud.mp3'']"
    using c2 by simp
  show ?thesis
    using h1 h2 h3 h4 h5 c1 c4 ex_run_quiet by (simp only: c3 simp_thms)
qed

lemma ex_files_quiet_after:
  "files (snd (on_created calm_env (created (lit ''/tmp/audio_to_process/quiet.wav'')) watch_world))
     (lit ''/tmp/audio_to_process/quiet.wav'') = Some [4, 5]"
proof -
  have "files (snd (on_created calm_env (created (lit ''/tmp/audio_to_process/quiet.wav'')) watch_world))
          = (files watch_world)
              (lit ''/tmp/transcripts/quiet_transcript.txt'' \<mapsto> map of_nat (lit ''hello world''))"
    using accepted_run_ok [of "created (lit ''/tmp/audio_to_process/quiet.wav'')" calm_env
      watch_world "[4, 5]" hello_response "lit ''hello world''"
      "map of_nat (lit ''hello world'')"]
    by (simp add: ex_filter_quiet ex_files_quiet ex_hello ex_utf8 ex_path_quiet)
  moreover have "lit ''/tmp/audio_to_process/quiet.wav'' \<noteq> lit ''/tmp/transcripts/quiet_transcript.txt''"
    by (simp add: lit_def)
  ultimately show ?thesis
    by (simp add: ex_files_quiet)
qed

lemma ex_run_quiet_again:
  "outcomes (emitted calm_env (created (lit ''/tmp/audio_to_process/quiet.wav''))
      (snd (on_created calm_env (created (lit ''/tmp/audio_to_process/quiet.wav'')) watch_world))) =
     [\<lparr>status = Success, subject = lit ''/tmp/transcripts/quiet_transcript.txt'', detail = None\<rparr>]"
  using accepted_run_ok [of "created (lit ''/tmp/audio_to_process/quiet.wav'')" calm_env
      "snd (on_created calm_env (created (lit ''/tmp/audio_to_process/quiet.wav'')) watch_world)"
      "[4, 5]" hello_response "lit ''hello world''" "map of_nat (lit ''hello world'')"]
  by (simp add: ex_filter_quiet ex_files_quiet_after ex_hello ex_utf8 ex_path_quiet)

text \<open>
  Claim C7, witness: \<open>quiet.wav\<close> handled twice.
\<close>

theorem reprocessing_overwrites_witness:
  "outcomes (emitted calm_env (created (lit ''/tmp/audio_to_process/quiet.wav'')) watch_world)
     = [\<lparr>status = Success, subject = lit ''/tmp/transcripts/quiet_transcript.txt'', detail = None\<rparr>]
   \<and> outcomes (emitted calm_env (created (lit ''/tmp/audio_to_process/quiet.wav''))
        (snd (on_created calm_env (created (lit ''/tmp/audio_to_process/quiet.wav'')) watch_world)))
     = [\<lparr>status = Success, subject = lit ''/tmp/transcripts/quiet_transcript.txt'', detail = None\<rparr>]
   \<and> dom (files (snd (on_created calm_env (created (lit ''/tmp/audio_to_process/quiet.wav''))
        (snd (on_created calm_env (created (lit ''/tmp/audio_to_process/quiet.wav'')) watch_world)))))
     = dom (files (snd (on_created calm_env (created (lit ''/tmp/audio_to_process/quiet.wav''))
        watch_world)))"
proof -
  let ?ev = "created (lit ''/tmp/audio_to_process/quiet.wav'')"
  have h1: "\<not> is_directory ?ev" by simp
  have h2: "file_filter (unicode calm_env) (src_path ?ev)" by (simp add: ex_filter_quiet)
  have h5: "basename (src_path ?ev) = basename (src_path ?ev)" by simp
  show ?thesis
    using reprocessing_overwrites [OF h1 h2 h1 h2 h5 ex_run_quiet ex_run_quiet_again]
      ex_run_quiet ex_run_quiet_again
    by simp
qed

lemma ex_calls_loud:
  "service_calls (emitted calm_env (created (lit ''/tmp/audio_to_process/loud.mp3'')) watch_world)
     = [[1, 2, 3]]"
  using accepted_run_ok [of "created (lit ''/tmp/audio_to_process/loud.mp3'')" calm_env
      watch_world "[1, 2, 3]" hello_response "lit ''hello world''"
      "map of_nat (lit ''hello world'')"]
  by (simp add: ex_filter_loud ex_files_loud ex_hello ex_utf8)

lemma ex_calls_quiet_after_loud:
  "service_calls (emitted calm_env (created (lit ''/tmp/audio_to_process/quiet.wav''))
      (snd (on_created calm_env (created (lit ''/tmp/audio_to_process/loud.mp3'')) watch_world)))
     = [[4, 5]]"
proof -
  let ?w1 = "snd (on_created calm_env (created (lit ''/tmp/audio_to_process/loud.mp3'')) watch_world)"
  have "files ?w1 = (files watch_world)
          (lit ''/tmp/transcripts/loud_transcript.txt'' \<mapsto> map of_nat (lit ''hello world''))"
    using accepted_run_ok [of "created (lit ''/tmp/audio_to_process/loud.mp3'')" calm_env
      watch_world "[1, 2, 3]" hello_response "lit ''hello world''"
      "map of_nat (lit ''hello world'')"]
    by (simp add: ex_filter_loud ex_files_loud ex_hello ex_utf8 ex_path_loud)
  moreover have "lit ''/tmp/audio_to_process/quiet.wav'' \<noteq> lit ''/tmp/transcripts/loud_transcript.txt''"
    by (simp add: lit_def)
  ultimately have f: "files ?w1 (lit ''/tmp/audio_to_process/quiet.wav'') = Some [4, 5]"
    by (simp add: ex_files_quiet)
  show ?thesis
    using accepted_run_ok [of "created (lit ''/tmp/audio_to_process/quiet.wav'')" calm_env
      ?w1 "[4, 5]" hello_response "lit ''hello world''" "map of_nat (lit ''hello world'')"]
    by (simp add: ex_filter_quiet f ex_hello ex_utf8)
qed

text \<open>
  Claim C8, witness: \<open>loud.mp3\<close> then \<open>quiet.wav\<close>; the service receives the bytes of the
  first, then the bytes of the second.
\<close>

theorem events_processed_in_order_witness:
  "\<not> is_directory (created (lit ''/tmp/audio_to_process/loud.mp3''))
   \<and> file_filter (unicode calm_env) (src_path (created (lit ''/tmp/audio_to_process/loud.mp3'')))
   \<and> \<not> is_directory (created (lit ''/tmp/audio_to_process/quiet.wav''))
   \<and> file_filter (unicode calm_env) (src_path (created (lit ''/tmp/audio_to_process/quiet.wav'')))
   \<and> service_calls (trace (snd (dispatch_events
        [(calm_env, created (lit ''/tmp/audio_to_process/loud.mp3'')),
         (calm_env, created (lit ''/tmp/audio_to_process/quiet.wav''))] watch_world)))
       = [[1, 2, 3], [4, 5]]
   \<and> (\<exists>oc. outcomes (emitted calm_env (created (lit ''/tmp/audio_to_process/loud.mp3'')) watch_world)
          = [oc] \<and> status oc \<in> {Success, Error})"
proof -
  let ?loud = "created (lit ''/tmp/audio_to_process/loud.mp3'')"
  let ?quiet = "created (lit ''/tmp/audio_to_process/quiet.wav'')"
  have t: "service_calls (trace watch_world) = []"
    by (simp add: watch_world_def service_calls_def)
  show ?thesis
    using events_processed_in_order [of calm_env ?loud calm_env ?quiet "[]" watch_world]
      ex_filter_loud ex_filter_quiet ex_calls_loud ex_calls_quiet_after_loud t
    by simp
qed

text \<open>
  Claim C10, witness: a directory named \<open>album.mp3\<close> and the file \<open>notes.txt\<close>.
\<close>

theorem directory_event_is_silent_witness:
  "(is_directory (folder_created (lit ''/tmp/audio_to_process/album.mp3''))
      \<and> on_created calm_env (folder_created (lit ''/tmp/audio_to_process/album.mp3'')) watch_world
          = (Inr (), watch_world)
      \<and> outcomes (emitted calm_env (folder_created (lit ''/tmp/audio_to_process/album.mp3''))
          watch_world) = [])
   \<and> (\<not> is_directory (created (lit ''/tmp/audio_to_process/notes.txt''))
      \<and> \<not> file_filter (unicode calm_env) (src_path (created (lit ''/tmp/audio_to_process/notes.txt'')))
      \<and> outcomes (emitted calm_env (created (lit ''/tmp/audio_to_process/notes.txt'')) watch_world)
          = [\<lparr>status = Ignored,
              subject = basename (src_path (created (lit ''/tmp/audio_to_process/notes.txt''))),
              detail = None\<rparr>])"
proof -
  have d: "is_directory (folder_created (lit ''/tmp/audio_to_process/album.mp3''))"
    by (simp add: folder_created_def)
  show ?thesis
    using d ex_filter_notes
      directory_event_is_silent [of "folder_created (lit ''/tmp/audio_to_process/album.mp3'')"
        calm_env watch_world]
      directory_event_is_silent [of "created (lit ''/tmp/audio_to_process/notes.txt'')"
        calm_env watch_world]
    by (simp add: outcomes_def)
qed

end
